theory Spec2Isabelle
  imports Complex_Main "HOL-Library.Word" "HOL-Library.Log_Nat" "HOL-Library.AList"
begin

unbundle bit_operations_syntax

section \<open>Python values used by the video analysis script\<close>

text \<open>
  The script \<^verbatim>\<open>Analysis/process_videos.py\<close> samples frames from videos, extracts their
  audio track with an external transcoder and writes transcripts. Its functions are
  embedded below one by one, under their own names. Everything an exception can
  interrupt returns \<open>py_error + 'a\<close>, with \<open>Inl\<close> for the exception; no function of the
  script catches one, so an \<open>Inl\<close> always travels up to \<open>main\<close>. Console output
  (\<^verbatim>\<open>print\<close>) is not part of the model, and faults of the operating system while a
  file is written (permissions, a full disk) are not either.
\<close>

datatype py_error =
    ZeroDivisionError
  | ValueError
  | OverflowError
  | Cv2Error
  | WaveError
  | WhisperError

subsection \<open>Floating point\<close>

text \<open>
  A Python \<^verbatim>\<open>float\<close> is an IEEE 754 binary64 number and a NumPy \<^verbatim>\<open>float32\<close> a
  binary32 one. A finite float is a real number, and an arithmetic operation returns
  the exact result rounded to the nearest number with \<open>p\<close> significant bits, ties to
  the even significand (\<open>p = 53\<close> and \<open>p = 24\<close>). \<open>fl p\<close> is that rounding; the
  exponent range is not bounded, so overflow to infinity and subnormal numbers are
  outside the model.
\<close>

definition round_half_even :: "real \<Rightarrow> int" where
  "round_half_even x =
     (let f = \<lfloor>x\<rfloor>; d = x - of_int f
      in if d < 1 / 2 then f
         else if 1 / 2 < d then f + 1
         else if even f then f else f + 1)"

definition binary_exponent :: "real \<Rightarrow> int" where
  \<comment> \<open>for \<open>0 < x\<close>, the \<open>e\<close> with \<open>2 ^ e \<le> x < 2 ^ (e + 1)\<close>\<close>
  "binary_exponent x =
     (if 1 \<le> x then bitlen \<lfloor>x\<rfloor> - 1 else - bitlen (\<lceil>1 / x\<rceil> - 1))"

definition round_pos :: "nat \<Rightarrow> real \<Rightarrow> real" where
  "round_pos p x =
     (let e = binary_exponent x - (int p - 1)
      in of_int (round_half_even (x / 2 powi e)) * 2 powi e)"

definition fl :: "nat \<Rightarrow> real \<Rightarrow> real" where
  "fl p x = (if x = 0 then 0 else if 0 < x then round_pos p x else - round_pos p (- x))"

abbreviation float64 :: "real \<Rightarrow> real" where
  "float64 \<equiv> fl 53"

abbreviation float32 :: "real \<Rightarrow> real" where
  "float32 \<equiv> fl 24"

definition py_truediv :: "real \<Rightarrow> real \<Rightarrow> py_error + real" where
  \<comment> \<open>\<^verbatim>\<open>a / b\<close> on numbers, at least one of them a float\<close>
  "py_truediv a b = (if b = 0 then Inl ZeroDivisionError else Inr (float64 (a / b)))"

definition py_mul :: "real \<Rightarrow> real \<Rightarrow> real" where
  \<comment> \<open>\<^verbatim>\<open>a * b\<close> on numbers, at least one of them a float\<close>
  "py_mul a b = float64 (a * b)"

definition py_int :: "real \<Rightarrow> int" where
  \<comment> \<open>\<^verbatim>\<open>int(x)\<close> on a float: truncation toward zero\<close>
  "py_int x = (if 0 \<le> x then \<lfloor>x\<rfloor> else \<lceil>x\<rceil>)"


subsection \<open>Strings and number formatting\<close>

definition digit_char :: "nat \<Rightarrow> char" where
  "digit_char d = ''0123456789'' ! (d mod 10)"

function str_nat :: "nat \<Rightarrow> string" where
  "str_nat n = (if n < 10 then [digit_char n] else str_nat (n div 10) @ [digit_char (n mod 10)])"
  by pat_completeness auto
termination
  by (relation "measure id") auto

declare str_nat.simps [simp del]


definition zero_pad :: "nat \<Rightarrow> string \<Rightarrow> string" where
  \<comment> \<open>\<^verbatim>\<open>:04d\<close> and \<^verbatim>\<open>%02d\<close> on a number that is not negative\<close>
  "zero_pad n s = replicate (n - length s) CHR ''0'' @ s"

definition format_1f :: "real \<Rightarrow> string" where
  \<comment> \<open>\<^verbatim>\<open>:.1f\<close>: the exact value of the float, rounded to one decimal, ties to even\<close>
  "format_1f t =
     (let r = nat (round_half_even (\<bar>t\<bar> * 10))
      in (if t < 0 then ''-'' else '''') @ str_nat (r div 10) @ ''.'' @ str_nat (r mod 10))"






subsection \<open>Paths and the file system\<close>

type_synonym path = "string list"

definition path_name :: "path \<Rightarrow> string" where
  \<comment> \<open>\<^verbatim>\<open>Path.name\<close>: the final component\<close>
  "path_name p = (if p = [] then '''' else last p)"

definition rfind_dot :: "string \<Rightarrow> nat option" where
  \<comment> \<open>\<^verbatim>\<open>name.rfind('.')\<close>, \<open>None\<close> for \<open>-1\<close>\<close>
  "rfind_dot s =
     (if CHR ''.'' \<in> set s then Some (length s - 1 - length (takeWhile (\<lambda>c. c \<noteq> CHR ''.'') (rev s)))
      else None)"

definition path_stem :: "path \<Rightarrow> string" where
  \<comment> \<open>\<^verbatim>\<open>Path.stem\<close>: the name without its last suffix\<close>
  "path_stem p =
     (let name = path_name p
      in case rfind_dot name of
           None \<Rightarrow> name
         | Some i \<Rightarrow> if 0 < i \<and> i < length name - 1 then take i name else name)"

fun path_str :: "path \<Rightarrow> string" where
  "path_str [] = ''.''"
| "path_str [c] = c"
| "path_str (c # cs) = c @ ''/'' @ path_str cs"

datatype json =
    JInt int
  | JFloat real
  | JStr string
  | JArr "json list"
  | JObj "(string \<times> json) list"

record frame =
  height :: nat
  width :: nat
  pixels :: nat

text \<open>
  What \<^verbatim>\<open>cv2.VideoCapture\<close> gives for a file: whether it opened, the two properties the
  script reads, and the frames that \<^verbatim>\<open>cap.read()\<close> returns before it first fails.
\<close>

record capture =
  isOpened :: bool
  CAP_PROP_FPS :: real
  CAP_PROP_FRAME_COUNT :: real
  read_frames :: "frame list"

datatype content =
    Dir
  | Video capture
  | Wav "8 word list"
  | Jpeg frame nat
  | Json json
  | Text string

type_synonym filesystem = "path \<Rightarrow> content option"

definition exists :: "filesystem \<Rightarrow> path \<Rightarrow> bool" where
  "exists files p = (files p \<noteq> None)"

definition mkdir :: "path \<Rightarrow> filesystem \<Rightarrow> filesystem" where
  \<comment> \<open>\<^verbatim>\<open>mkdir(parents=True, exist_ok=True)\<close>\<close>
  "mkdir p files = (if exists files p then files else files(p \<mapsto> Dir))"

definition VideoCapture :: "filesystem \<Rightarrow> path \<Rightarrow> capture" where
  "VideoCapture files p =
     (case files p of
        Some (Video cap) \<Rightarrow> cap
      | _ \<Rightarrow> \<lparr>isOpened = False, CAP_PROP_FPS = 0, CAP_PROP_FRAME_COUNT = 0, read_frames = []\<rparr>)"

record completed_process =
  returncode :: int
  stderr :: string

record segment =
  seg_start :: real
  seg_end :: real
  seg_text :: string

record whisper_result =
  result_text :: string
  segments :: "segment list"

text \<open>
  The world outside the script: the file system and the commands handed to
  \<^verbatim>\<open>subprocess.run\<close> so far. The programs the script calls are parameters: what the
  transcoder does to the file system and what it returns, and what the speech model
  answers.
\<close>

record world =
  fs :: filesystem
  subprocess_calls :: "string list list"

record env =
  ffmpeg_exe :: string
  subprocess_run :: "string list \<Rightarrow> filesystem \<Rightarrow> completed_process \<times> filesystem"
  load_model :: "string \<Rightarrow> py_error + (real list \<Rightarrow> py_error + whisper_result)"

section \<open>Configuration\<close>

record video_info =
  name :: string
  video_file :: string
  title :: string

definition BASE_DIR :: path where
  "BASE_DIR = [''D:'', ''Projects'', ''BowlerTrax'']"

definition VIDEOS_DIR :: path where
  "VIDEOS_DIR = BASE_DIR @ [''Videos'']"

definition ANALYSIS_DIR :: path where
  "ANALYSIS_DIR = BASE_DIR @ [''Analysis'']"


definition TRANSCRIPTS_DIR :: path where
  "TRANSCRIPTS_DIR = ANALYSIS_DIR @ [''transcripts'']"


section \<open>The WAV loader\<close>

fun frombuffer_int16 :: "8 word list \<Rightarrow> 16 word list" where
  \<comment> \<open>\<^verbatim>\<open>np.frombuffer(frames, dtype=np.int16)\<close>: two bytes a sample, low byte first\<close>
  "frombuffer_int16 (lo # hi # rest) = (push_bit 8 (ucast hi) OR ucast lo) # frombuffer_int16 rest"
| "frombuffer_int16 _ = []"

definition int16_to_float :: "16 word \<Rightarrow> real" where
  \<comment> \<open>\<^verbatim>\<open>.astype(np.float32) / 32768.0\<close> on one sample\<close>
  "int16_to_float s = float32 (float32 (real_of_int (sint s)) / 32768)"

definition load_audio_from_wav :: "filesystem \<Rightarrow> path \<Rightarrow> py_error + real list" where
  "load_audio_from_wav files file_path =
     (case files file_path of
        Some (Wav frames) \<Rightarrow>
          if even (length frames) then Inr (map int16_to_float (frombuffer_int16 frames))
          else Inl ValueError
      | _ \<Rightarrow> Inl WaveError)"

section \<open>The audio extractor\<close>

definition audio_file_of :: "path \<Rightarrow> path \<Rightarrow> path" where
  "audio_file_of video_path output_path = output_path @ [path_stem video_path @ ''.wav'']"

definition ffmpeg_cmd :: "env \<Rightarrow> path \<Rightarrow> path \<Rightarrow> string list" where
  "ffmpeg_cmd e video_path audio_file =
     [ffmpeg_exe e, ''-i'', path_str video_path, ''-vn'', ''-acodec'', ''pcm_s16le'',
      ''-ar'', ''16000'', ''-ac'', ''1'', ''-y'', path_str audio_file]"

definition extract_audio :: "env \<Rightarrow> world \<Rightarrow> path \<Rightarrow> path \<Rightarrow> world \<times> path option" where
  "extract_audio e w video_path output_path =
     (let audio_file = audio_file_of video_path output_path
      in if exists (fs w) audio_file then (w, Some audio_file)
         else
           let cmd = ffmpeg_cmd e video_path audio_file;
               (result, files) = subprocess_run e cmd (fs w);
               w' = w\<lparr>fs := files, subprocess_calls := subprocess_calls w @ [cmd]\<rparr>
           in if returncode result \<noteq> 0 then (w', None) else (w', Some audio_file))"

section \<open>The frame sampler\<close>

record extracted_frame =
  filename :: string
  timestamp :: real
  frame_number :: nat

definition cv2_resize :: "frame \<Rightarrow> int \<times> int \<Rightarrow> py_error + frame" where
  \<comment> \<open>\<^verbatim>\<open>cv2.resize(frame, (w, h))\<close>; OpenCV raises on a target size with an empty side\<close>
  "cv2_resize frame dsize =
     (let (w, h) = dsize
      in if w \<le> 0 \<or> h \<le> 0 then Inl Cv2Error
         else Inr (frame\<lparr>height := nat h, width := nat w\<rparr>))"

definition resize_for_analysis :: "frame \<Rightarrow> py_error + frame" where
  "resize_for_analysis frame =
     (if width frame > 1280 then
        (case py_truediv 1280 (real (width frame)) of
           Inl err \<Rightarrow> Inl err
         | Inr scale \<Rightarrow>
             cv2_resize frame
               (py_int (py_mul (real (width frame)) scale),
                py_int (py_mul (real (height frame)) scale)))
      else Inr frame)"

definition frame_filename :: "nat \<Rightarrow> real \<Rightarrow> string" where
  "frame_filename saved_count ts =
     ''frame_'' @ zero_pad 4 (str_nat saved_count) @ ''_t'' @ format_1f ts @ ''s.jpg''"

fun frames_loop ::
  "path \<Rightarrow> real \<Rightarrow> int \<Rightarrow> frame list \<Rightarrow> nat \<Rightarrow> nat \<Rightarrow> extracted_frame list \<Rightarrow> filesystem
     \<Rightarrow> py_error + filesystem \<times> extracted_frame list" where
  "frames_loop output_dir fps frame_interval [] frame_count saved_count extracted_frames files =
     Inr (files, extracted_frames)"
| "frames_loop output_dir fps frame_interval (frame # rest) frame_count saved_count extracted_frames files =
     (if frame_interval = 0 then Inl ZeroDivisionError
      else if int frame_count mod frame_interval = 0 then
        (case py_truediv (real frame_count) fps of
           Inl err \<Rightarrow> Inl err
         | Inr ts \<Rightarrow>
            (case resize_for_analysis frame of
               Inl err \<Rightarrow> Inl err
             | Inr frame' \<Rightarrow>
                 frames_loop output_dir fps frame_interval rest (frame_count + 1) (saved_count + 1)
                   (extracted_frames @
                      [\<lparr>filename = frame_filename saved_count ts, timestamp = ts,
                        frame_number = frame_count\<rparr>])
                   (files(output_dir @ [frame_filename saved_count ts] \<mapsto> Jpeg frame' 85))))
      else frames_loop output_dir fps frame_interval rest (frame_count + 1) saved_count
             extracted_frames files)"

definition total_frames_of :: "capture \<Rightarrow> int" where
  "total_frames_of cap = py_int (CAP_PROP_FRAME_COUNT cap)"

definition duration_of :: "capture \<Rightarrow> py_error + real" where
  \<comment> \<open>\<^verbatim>\<open>duration = total_frames / fps\<close>\<close>
  "duration_of cap = py_truediv (real_of_int (total_frames_of cap)) (CAP_PROP_FPS cap)"

definition frame_interval_of :: "real \<Rightarrow> real \<Rightarrow> py_error + int" where
  \<comment> \<open>\<^verbatim>\<open>frame_interval = int(fps / fps_sample)\<close>\<close>
  "frame_interval_of fps fps_sample =
     (case py_truediv fps fps_sample of Inl err \<Rightarrow> Inl err | Inr q \<Rightarrow> Inr (py_int q))"

definition frame_json :: "extracted_frame \<Rightarrow> json" where
  "frame_json x =
     JObj [(''filename'', JStr (filename x)), (''timestamp'', JFloat (timestamp x)),
           (''frame_number'', JInt (int (frame_number x)))]"

definition extract_frames ::
  "world \<Rightarrow> path \<Rightarrow> path \<Rightarrow> real \<Rightarrow> py_error + world \<times> extracted_frame list" where
  "extract_frames w video_path output_dir fps_sample =
     (let cap = VideoCapture (fs w) video_path
      in if \<not> isOpened cap then Inr (w, [])
         else
           case duration_of cap of
             Inl err \<Rightarrow> Inl err
           | Inr duration \<Rightarrow>
              (case frame_interval_of (CAP_PROP_FPS cap) fps_sample of
                 Inl err \<Rightarrow> Inl err
               | Inr frame_interval \<Rightarrow>
                  (case frames_loop output_dir (CAP_PROP_FPS cap) frame_interval (read_frames cap) 0 0 []
                          (mkdir output_dir (fs w)) of
                     Inl err \<Rightarrow> Inl err
                   | Inr (files, extracted_frames) \<Rightarrow>
                       Inr (w\<lparr>fs := files(output_dir @ [''frame_index.json'']
                                       \<mapsto> Json (JArr (map frame_json extracted_frames)))\<rparr>,
                            extracted_frames))))"

section \<open>The transcriber\<close>








section \<open>The run\<close>










section \<open>Reading the outcome of a call\<close>

definition file_after :: "py_error + world \<times> 'a \<Rightarrow> path \<Rightarrow> content option" where
  \<comment> \<open>the file at a path once a call has returned\<close>
  "file_after r p = (case r of Inr (w, x) \<Rightarrow> fs w p | Inl err \<Rightarrow> None)"








section \<open>The formulas of the specification\<close>



section \<open>Example inputs\<close>

definition world_of :: "(path \<times> content) list \<Rightarrow> world" where
  "world_of files = \<lparr>fs = map_of files, subprocess_calls = []\<rparr>"

definition zero_fps_video :: capture where
  "zero_fps_video =
     \<lparr>isOpened = True, CAP_PROP_FPS = 0, CAP_PROP_FRAME_COUNT = 0, read_frames = []\<rparr>"

definition wide_video :: capture where
  "wide_video =
     \<lparr>isOpened = True, CAP_PROP_FPS = 30, CAP_PROP_FRAME_COUNT = 1,
      read_frames = [\<lparr>height = 1200, width = 2139, pixels = 0\<rparr>]\<rparr>"



definition failing_transcoder :: env where
  \<comment> \<open>a transcoder that exits with code 1 and writes nothing; no speech model\<close>
  "failing_transcoder =
     \<lparr>ffmpeg_exe = ''ffmpeg'',
      subprocess_run = (\<lambda>cmd files. (\<lparr>returncode = 1, stderr = ''Invalid data found''\<rparr>, files)),
      load_model = (\<lambda>model_name. Inl WhisperError)\<rparr>"











section \<open>Rounding is monotone\<close>

lemma round_half_even_of_int: "round_half_even (of_int n) = n"
  by (simp add: round_half_even_def)

lemma round_half_even_ge_floor: "\<lfloor>x\<rfloor> \<le> round_half_even x"
  by (simp add: round_half_even_def Let_def)

lemma round_half_even_le_floor1: "round_half_even x \<le> \<lfloor>x\<rfloor> + 1"
  by (simp add: round_half_even_def Let_def)

lemma round_half_even_mono:
  assumes "x \<le> y"
  shows "round_half_even x \<le> round_half_even y"
proof (cases "\<lfloor>x\<rfloor> = \<lfloor>y\<rfloor>")
  case True
  with assms show ?thesis
    by (auto simp: round_half_even_def Let_def)
next
  case False
  with assms have "\<lfloor>x\<rfloor> + 1 \<le> \<lfloor>y\<rfloor>"
    using floor_mono [of x y] by linarith
  then show ?thesis
    using round_half_even_le_floor1 [of x] round_half_even_ge_floor [of y] by linarith
qed

lemma binary_exponent_bounds:
  assumes "0 < x"
  shows "2 powi binary_exponent x \<le> x" and "x < 2 powi (binary_exponent x + 1)"
proof -
  show "2 powi binary_exponent x \<le> x"
  proof (cases "1 \<le> x")
    case True
    then have n: "0 < \<lfloor>x\<rfloor>" by linarith
    have "(2::int) ^ nat (bitlen \<lfloor>x\<rfloor> - 1) \<le> \<lfloor>x\<rfloor>"
      using bitlen_bounds [OF n] by simp
    then have "(2::real) ^ nat (bitlen \<lfloor>x\<rfloor> - 1) \<le> of_int \<lfloor>x\<rfloor>"
      by simp
    moreover have "0 \<le> bitlen \<lfloor>x\<rfloor> - 1"
      by (metis n One_nat_def int_one_le_iff_zero_less nat_1 cancel_comm_monoid_add_class.diff_cancel bitlen_ge_iff_power power_0 diff_ge_0_iff_ge)
    moreover have "of_int \<lfloor>x\<rfloor> \<le> x" by simp
    ultimately have "(2::real) ^ nat (bitlen \<lfloor>x\<rfloor> - 1) \<le> x"
      and "2 powi (bitlen \<lfloor>x\<rfloor> - 1) = (2::real) ^ nat (bitlen \<lfloor>x\<rfloor> - 1)"
      by (linarith, simp add: power_int_def)
    then show ?thesis using True
      by (simp add: binary_exponent_def)
  next
    case False
    define n where "n = \<lceil>1 / x\<rceil> - 1"
    have y: "1 < 1 / x" using assms False by simp
    then have n: "0 < n" unfolding n_def by linarith
    have "n + 1 \<le> 2 ^ nat (bitlen n)"
      using bitlen_bounds [OF n] by simp
    then have "real_of_int (n + 1) \<le> 2 ^ nat (bitlen n)"
      by (metis of_int_le_numeral_power_cancel_iff)
    moreover have "1 / x \<le> real_of_int (n + 1)"
      unfolding n_def by linarith
    ultimately have "1 / x \<le> 2 ^ nat (bitlen n)" by linarith
    then have "1 / 2 ^ nat (bitlen n) \<le> x"
      using assms by (simp add: pos_divide_le_eq mult.commute)
    moreover have "2 powi (- bitlen n) = 1 / (2::real) ^ nat (bitlen n)"
      using bitlen_nonneg [of n] by (metis power_int_minus_divide power_int_nonneg_exp)
    ultimately show ?thesis using False by (simp add: binary_exponent_def n_def)
  qed
  show "x < 2 powi (binary_exponent x + 1)"
  proof (cases "1 \<le> x")
    case True
    then have n: "0 < \<lfloor>x\<rfloor>" by linarith
    have "\<lfloor>x\<rfloor> + 1 \<le> 2 ^ nat (bitlen \<lfloor>x\<rfloor>)"
      using bitlen_bounds [OF n] by simp
    then have "real_of_int (\<lfloor>x\<rfloor> + 1) \<le> 2 ^ nat (bitlen \<lfloor>x\<rfloor>)"
      by (metis of_int_le_numeral_power_cancel_iff)
    moreover have "x < real_of_int (\<lfloor>x\<rfloor> + 1)" by linarith
    ultimately have "x < 2 ^ nat (bitlen \<lfloor>x\<rfloor>)" by linarith
    moreover have "2 powi (bitlen \<lfloor>x\<rfloor>) = (2::real) ^ nat (bitlen \<lfloor>x\<rfloor>)"
      using bitlen_nonneg [of "\<lfloor>x\<rfloor>"] by (simp add: power_int_def)
    ultimately show ?thesis using True by (simp add: binary_exponent_def)
  next
    case False
    define n where "n = \<lceil>1 / x\<rceil> - 1"
    have y: "1 < 1 / x" using assms False by simp
    then have n: "0 < n" unfolding n_def by linarith
    have b: "1 \<le> bitlen n"
      by (metis n One_nat_def int_one_le_iff_zero_less nat_1 cancel_comm_monoid_add_class.diff_cancel bitlen_ge_iff_power power_0)
    have "2 ^ nat (bitlen n - 1) \<le> n"
      using bitlen_bounds [OF n] by simp
    then have "(2::real) ^ nat (bitlen n - 1) \<le> real_of_int n"
      by simp
    moreover have "real_of_int n < 1 / x"
      unfolding n_def by linarith
    ultimately have "2 ^ nat (bitlen n - 1) < 1 / x" by linarith
    then have "x < 1 / 2 ^ nat (bitlen n - 1)"
      using assms by (simp add: pos_less_divide_eq pos_divide_less_eq mult.commute)
    moreover have "2 powi (- bitlen n + 1) = 1 / (2::real) ^ nat (bitlen n - 1)"
      using b by (metis add_0 le_diff_eq minus_diff_eq power_int_minus_divide
    power_int_nonneg_exp uminus_add_conv_diff)
    ultimately show ?thesis using False by (simp add: binary_exponent_def n_def)
  qed
qed

lemma binary_exponent_mono:
  assumes "0 < x" and "x \<le> y"
  shows "binary_exponent x \<le> binary_exponent y"
proof -
  have lt: "(2::real) powi binary_exponent x < 2 powi (binary_exponent y + 1)"
    using binary_exponent_bounds(1) [of x] binary_exponent_bounds(2) [of y] assms by linarith
  show ?thesis
  proof (rule ccontr)
    assume "\<not> binary_exponent x \<le> binary_exponent y"
    then have "binary_exponent y + 1 \<le> binary_exponent x" by linarith
    then have "(2::real) powi (binary_exponent y + 1) \<le> 2 powi binary_exponent x"
      by (simp add: power_int_increasing)
    with lt show False by linarith
  qed
qed

lemma round_pos_bounds:
  assumes "0 < x" and "0 < p"
  shows "2 powi binary_exponent x \<le> round_pos p x"
    and "round_pos p x \<le> 2 powi (binary_exponent x + 1)"
proof -
  define e where "e = binary_exponent x"
  define k where "k = p - 1"
  define s :: real where "s = 2 powi (e - int k)"
  have s: "0 < s" by (simp add: s_def)
  have lo: "2 powi e = 2 ^ k * s"
    unfolding s_def using power_int_diff [of "2::real" e "int k"] by simp
  have hi: "2 powi (e + 1) = 2 ^ Suc k * s"
    using lo by (simp add: power_int_add_1)
  have "2 ^ k * s \<le> x" and "x < 2 ^ Suc k * s"
    using binary_exponent_bounds [OF assms(1)] lo hi by (simp_all add: e_def)
  then have m: "of_int (2 ^ k) \<le> x / s" "x / s \<le> of_int (2 ^ Suc k)"
    using s by (simp_all add: pos_le_divide_eq pos_divide_le_eq)
  have rp: "round_pos p x = real_of_int (round_half_even (x / s)) * s"
    using assms(2) by (simp add: round_pos_def Let_def e_def s_def k_def of_nat_diff)
  have "2 ^ k \<le> round_half_even (x / s)"
    using round_half_even_mono [OF m(1)] by (simp only: round_half_even_of_int)
  then have "2 ^ k \<le> real_of_int (round_half_even (x / s))"
    by simp
  then have "2 ^ k * s \<le> real_of_int (round_half_even (x / s)) * s"
    using s by simp
  then show "2 powi binary_exponent x \<le> round_pos p x"
    using lo rp by (simp add: e_def)
  have "round_half_even (x / s) \<le> 2 ^ Suc k"
    using round_half_even_mono [OF m(2)] by (simp only: round_half_even_of_int)
  then have "real_of_int (round_half_even (x / s)) \<le> 2 ^ Suc k"
    by (metis of_int_le_numeral_power_cancel_iff)
  then have "real_of_int (round_half_even (x / s)) * s \<le> 2 ^ Suc k * s"
    using s by simp
  then show "round_pos p x \<le> 2 powi (binary_exponent x + 1)"
    using hi rp by (simp add: e_def)
qed

lemma round_pos_mono:
  assumes "0 < x" and "x \<le> y" and "0 < p"
  shows "round_pos p x \<le> round_pos p y"
proof (cases "binary_exponent x = binary_exponent y")
  case True
  define s :: real where "s = 2 powi (binary_exponent y - (int p - 1))"
  have s: "0 < s" by (simp add: s_def)
  have "x / s \<le> y / s" using assms s by (simp add: divide_right_mono)
  then have "real_of_int (round_half_even (x / s)) \<le> real_of_int (round_half_even (y / s))"
    using round_half_even_mono by simp
  then have "real_of_int (round_half_even (x / s)) * s \<le> real_of_int (round_half_even (y / s)) * s"
    using s by simp
  then show ?thesis using True by (simp add: round_pos_def Let_def s_def)
next
  case False
  then have "binary_exponent x + 1 \<le> binary_exponent y"
    using binary_exponent_mono [OF assms(1,2)] by linarith
  then have "(2::real) powi (binary_exponent x + 1) \<le> 2 powi binary_exponent y"
    by (simp add: power_int_increasing)
  moreover have "0 < y" using assms by linarith
  ultimately show ?thesis
    using round_pos_bounds(2) [OF assms(1,3)] round_pos_bounds(1) [of y p] assms(3) by linarith
qed

lemma round_pos_gt_0: "0 < x \<Longrightarrow> 0 < p \<Longrightarrow> 0 < round_pos p x"
  using round_pos_bounds(1) [of x p] zero_less_power_int [of "2::real" "binary_exponent x"]
  by linarith

lemma fl_mono:
  assumes "x \<le> y" and "0 < p"
  shows "fl p x \<le> fl p y"
proof -
  consider "0 < x" | "x = 0" | "x < 0" "y < 0" | "x < 0" "0 \<le> y" by linarith
  then show ?thesis
  proof cases
    case 1
    then show ?thesis using assms round_pos_mono [of x y p] by (simp add: fl_def)
  next
    case 2
    then show ?thesis using assms round_pos_gt_0 [of y p] by (auto simp: fl_def less_imp_le)
  next
    case 3
    then show ?thesis using assms round_pos_mono [of "- y" "- x" p] by (simp add: fl_def)
  next
    case 4
    then show ?thesis using round_pos_gt_0 [of y p] round_pos_gt_0 [of "- x" p] assms(2)
      by (auto simp: fl_def)
  qed
qed

lemma fl_0: "fl p 0 = 0"
  by (simp add: fl_def)





subsection \<open>Rounding keeps distinct quotients apart\<close>





section \<open>The WAV loader\<close>

lemma int16_to_float_range: "- 1 \<le> int16_to_float s \<and> int16_to_float s \<le> 1"
proof -
  define v where "v = real_of_int (sint s)"
  have "- 32768 \<le> sint s" and "sint s \<le> 32768"
    using sint_ge [of s] sint_lt [of s] by simp_all
  then have "real_of_int (- 32768) \<le> real_of_int (sint s)"
    and "real_of_int (sint s) \<le> real_of_int 32768"
    by (simp_all only: of_int_le_iff)
  then have b: "- 32768 \<le> v" "v \<le> 32768"
    by (simp_all add: v_def)
  have e1: "float32 (- 32768) = - 32768" by code_simp
  have e2: "float32 32768 = 32768" by code_simp
  have e3: "float32 (- 1) = - 1" by code_simp
  have e4: "float32 1 = 1" by code_simp
  have "- 32768 \<le> float32 v" "float32 v \<le> 32768"
    using fl_mono [OF b(1), of 24] fl_mono [OF b(2), of 24] e1 e2 by simp_all
  then have "- 1 \<le> float32 v / 32768" "float32 v / 32768 \<le> 1"
    by simp_all
  then have "- 1 \<le> float32 (float32 v / 32768)" "float32 (float32 v / 32768) \<le> 1"
    using fl_mono [of "- 1" "float32 v / 32768" 24] fl_mono [of "float32 v / 32768" 1 24] e3 e4
    by simp_all
  then show ?thesis
    by (simp only: int16_to_float_def v_def)
qed

lemma load_audio_from_wav_returns:
  "files file_path = Some (Wav pcm) \<Longrightarrow> even (length pcm)
     \<Longrightarrow> load_audio_from_wav files file_path = Inr (map int16_to_float (frombuffer_int16 pcm))"
  by (simp add: load_audio_from_wav_def)

text \<open>
  Claim C9: whenever \<open>load_audio_from_wav\<close> decodes a WAV file, every sample of the
  buffer it returns lies in the range from \<open>-1\<close> to \<open>1\<close>. The samples are 16-bit signed
  integers, converted to binary32 and divided by 32768.
\<close>

theorem load_audio_from_wav_range:
  assumes "load_audio_from_wav files file_path = Inr audio"
  shows "\<forall>x \<in> set audio. - 1 \<le> x \<and> x \<le> 1"
  using assms
  by (auto simp: load_audio_from_wav_def int16_to_float_range
      split: option.splits content.splits if_splits)

theorem load_audio_from_wav_range_witness:
  "load_audio_from_wav (map_of [([''a.wav''], Wav [0x00, 0x80, 0xFF, 0x7F])]) [''a.wav'']
     = Inr [- 1, 32767 / 32768]
   \<and> list_all (\<lambda>x. - 1 \<le> x \<and> x \<le> 1) [- 1, 32767 / 32768 :: real]"
proof -
  have h: "load_audio_from_wav (map_of [([''a.wav''], Wav [0x00, 0x80, 0xFF, 0x7F])]) [''a.wav'']
             = Inr [- 1, 32767 / 32768]"
    by code_simp
  show ?thesis
    using h load_audio_from_wav_range [OF h] by (simp add: list_all_iff)
qed

section \<open>The audio extractor\<close>

text \<open>
  Claim C5: when the WAV file already exists at the path derived from the stem of the
  video's name, \<open>extract_audio\<close> returns that path and leaves the world as it is: no
  command is handed to the transcoder and no file changes.
\<close>

theorem extract_audio_idempotent:
  assumes "exists (fs w) (audio_file_of video_path output_path)"
  shows "extract_audio e w video_path output_path
           = (w, Some (audio_file_of video_path output_path))"
  using assms by (simp add: extract_audio_def)

theorem extract_audio_idempotent_witness:
  "exists (fs (world_of [(TRANSCRIPTS_DIR @ [''clip.wav''], Wav [0x01, 0x00])]))
     (audio_file_of (VIDEOS_DIR @ [''clip.mp4'']) TRANSCRIPTS_DIR)
   \<and> extract_audio failing_transcoder
         (world_of [(TRANSCRIPTS_DIR @ [''clip.wav''], Wav [0x01, 0x00])])
         (VIDEOS_DIR @ [''clip.mp4'']) TRANSCRIPTS_DIR
       = (world_of [(TRANSCRIPTS_DIR @ [''clip.wav''], Wav [0x01, 0x00])],
          Some (audio_file_of (VIDEOS_DIR @ [''clip.mp4'']) TRANSCRIPTS_DIR))"
proof -
  have h: "exists (fs (world_of [(TRANSCRIPTS_DIR @ [''clip.wav''], Wav [0x01, 0x00])]))
             (audio_file_of (VIDEOS_DIR @ [''clip.mp4'']) TRANSCRIPTS_DIR)"
    by code_simp
  show ?thesis
    by (rule conjI [OF h extract_audio_idempotent [OF h]])
qed

section \<open>The frame sampler\<close>

text \<open>
  Claim C10: when the video cannot be opened, \<open>extract_frames\<close> returns the empty
  list and the world it was given: the output directory is not created and no
  manifest is written.
\<close>

theorem extract_frames_not_opened:
  assumes "\<not> isOpened (VideoCapture (fs w) video_path)"
  shows "extract_frames w video_path output_dir fps_sample = Inr (w, [])"
  using assms by (simp add: extract_frames_def)

theorem extract_frames_not_opened_witness:
  "\<not> isOpened (VideoCapture (fs (world_of [([''notes.txt''], Text ''abc'')])) [''notes.txt''])
   \<and> extract_frames (world_of [([''notes.txt''], Text ''abc'')]) [''notes.txt''] [''out''] (1 / 2)
       = Inr (world_of [([''notes.txt''], Text ''abc'')], [])"
proof -
  have h: "\<not> isOpened (VideoCapture (fs (world_of [([''notes.txt''], Text ''abc'')])) [''notes.txt''])"
    by code_simp
  show ?thesis
    by (rule conjI [OF h extract_frames_not_opened [OF h]])
qed

lemma duration_zero_frames:
  "CAP_PROP_FRAME_COUNT cap = 0 \<Longrightarrow> CAP_PROP_FPS cap \<noteq> 0 \<Longrightarrow> duration_of cap = Inr 0"
  by (simp add: duration_of_def total_frames_of_def py_int_def py_truediv_def fl_0)

text \<open>
  Claim C7: a source whose frame rate is zero should give a duration of 0 and no
  fault. The division \<^verbatim>\<open>total_frames / fps\<close> has no guard: on an opened source that
  reports a frame rate of zero, \<open>extract_frames\<close> raises \<open>ZeroDivisionError\<close>. (A source
  with no frames and a frame rate other than zero does get the duration 0, as
  \<open>duration_zero_frames\<close> shows.)
\<close>

theorem extract_frames_zero_fps:
  "extract_frames (world_of [([''v.mp4''], Video zero_fps_video)]) [''v.mp4''] [''out''] (1 / 2)
     = Inl ZeroDivisionError"
  by (simp add: extract_frames_def world_of_def zero_fps_video_def VideoCapture_def
      duration_of_def py_truediv_def)

lemma scale_2139: "py_truediv 1280 2139 = Inr (5390002359078293 / 9007199254740992)"
  by code_simp

lemma width_2139: "py_int (py_mul 2139 (5390002359078293 / 9007199254740992)) = 1279"
  by code_simp

lemma height_1200: "py_int (py_mul 1200 (5390002359078293 / 9007199254740992)) = 718"
  by code_simp

lemma resize_2139:
  "resize_for_analysis \<lparr>height = 1200, width = 2139, pixels = 0\<rparr>
     = Inr \<lparr>height = 718, width = 1279, pixels = 0\<rparr>"
  by (simp add: resize_for_analysis_def cv2_resize_def scale_2139 width_2139 height_1200)

lemma timestamp_0: "py_truediv 0 30 = Inr 0"
  by (simp add: py_truediv_def fl_0)

lemma filename_0: "frame_filename 0 0 = ''frame_0000_t0.0s.jpg''"
  by code_simp

lemma frame_interval_30: "frame_interval_of 30 (1 / 2) = Inr 60"
  by code_simp

text \<open>
  Claim C8: a kept frame wider than 1280 pixels should be saved with width 1280.
  The target width is \<^verbatim>\<open>int(width * (1280 / width))\<close>, and for a frame 2139 pixels
  wide the product of the two floats is just below 1280: the frame is saved 1279
  pixels wide.
\<close>

theorem extract_frames_width_2139:
  "file_after (extract_frames (world_of [([''v.mp4''], Video wide_video)]) [''v.mp4''] [''out''] (1 / 2))
     [''out'', ''frame_0000_t0.0s.jpg'']
   = Some (Jpeg \<lparr>height = 718, width = 1279, pixels = 0\<rparr> 85)"
  by (simp add: file_after_def extract_frames_def world_of_def wide_video_def VideoCapture_def
      duration_of_def total_frames_of_def py_int_def mkdir_def exists_def
      timestamp_0 filename_0 frame_interval_30 resize_2139 py_truediv_def fl_0)

subsection \<open>What the sampling loop keeps\<close>























section \<open>The transcripts\<close>





















section \<open>The run over the videos\<close>



















end
